theory Spec2Isabelle
  imports Main "HOL-Library.List_Lexorder" "HOL-Library.Char_ord" "HOL-Library.Multiset"
begin

section \<open>Python strings\<close>

text \<open>
  A Python \<open>str\<close> is modelled as a \<open>string\<close>; a character stands for the code point of
  the same number (0 to 255). Comparison of strings is lexicographic on code points, as in
  Python, through the list and character orders imported above.
\<close>

text \<open>\<open>sep.join(xs)\<close>\<close>

fun py_join :: "string \<Rightarrow> string list \<Rightarrow> string" where
  "py_join sep [] = []"
| "py_join sep [x] = x"
| "py_join sep (x # y # ys) = x @ sep @ py_join sep (y # ys)"

text \<open>\<open>s.startswith(p)\<close>\<close>

definition startswith :: "string \<Rightarrow> string \<Rightarrow> bool" where
  "startswith s p = (take (length p) s = p)"

text \<open>
  \<open>s.split(sep)\<close> for a non-empty separator: the leftmost occurrences, not overlapping;
  the result always has at least one element. (Python raises on an empty separator; the
  program only splits on \<open>','\<close>.) \<open>acc\<close> is the piece read so far.
\<close>

function py_split_go :: "string \<Rightarrow> string \<Rightarrow> string \<Rightarrow> string list" where
  "py_split_go sep acc [] = [acc]"
| "py_split_go sep acc (c # cs) =
     (if sep \<noteq> [] \<and> startswith (c # cs) sep
      then acc # py_split_go sep [] (drop (length sep) (c # cs))
      else py_split_go sep (acc @ [c]) cs)"
  by pat_completeness auto
termination
  by (relation "measure (\<lambda>(sep, acc, s). length s)") auto

definition py_split :: "string \<Rightarrow> string \<Rightarrow> string list" where
  "py_split sep s = py_split_go sep [] s"

section \<open>Field translators\<close>

text \<open>
  The values a translator receives from the metadata object: \<open>None\<close>, a \<open>str\<close>, or a
  sequence of \<open>str\<close>.
\<close>

datatype pyval = PNone | PStr string | PList "string list"

text \<open>
  What the translators read from outside: whether a path exists (\<open>os.path.exists\<close>), the
  line separator \<open>os.linesep\<close>, and Python's built-in \<open>str\<close> of a list of strings, which
  is taken as given.
\<close>

record os_env =
  path_exists :: "string \<Rightarrow> bool"
  linesep :: string
  str_of_list :: "string list \<Rightarrow> string"

text \<open>The three handler classes; each carries \<open>setup_cfg_name\<close>, the list handler also
  \<open>newline\<close>.\<close>

datatype handler =
    str_handler string
  | long_description_handler string
  | list_comma_handler string bool

fun setup_cfg_name :: "handler \<Rightarrow> string" where
  "setup_cfg_name (str_handler n) = n"
| "setup_cfg_name (long_description_handler n) = n"
| "setup_cfg_name (list_comma_handler n nl) = n"

text \<open>\<open>str(value)\<close> for a value that is not \<open>None\<close>.\<close>

fun py_str :: "os_env \<Rightarrow> pyval \<Rightarrow> string" where
  "py_str os (PStr s) = s"
| "py_str os (PList xs) = str_of_list os xs"
| "py_str os PNone = ''None''"

text \<open>\<open>list_comma_handler.serialize\<close>, after the string has been split.\<close>

definition list_comma_join :: "os_env \<Rightarrow> bool \<Rightarrow> string list \<Rightarrow> string option" where
  "list_comma_join os newline vals =
     (if length vals = 0 \<or> vals = [''UNKNOWN''] then None
      else if newline then Some (linesep os @ py_join (linesep os) vals)
      else Some (py_join '', '' vals))"

fun serialize :: "os_env \<Rightarrow> handler \<Rightarrow> pyval \<Rightarrow> string option" where
  "serialize os (long_description_handler n) v =
     (if path_exists os ''README.rst'' then Some ''file: README.rst'' else None)"
| "serialize os (str_handler n) v =
     (if v = PNone then None else Some (py_str os v))"
| "serialize os (list_comma_handler n newline) (PStr s) =
     list_comma_join os newline (py_split '','' s)"
| "serialize os (list_comma_handler n newline) PNone = None"
| "serialize os (list_comma_handler n newline) (PList vals) =
     list_comma_join os newline vals"

text \<open>The static field table, in the order it is written (the order a dict iterates).\<close>

definition METADATA_KEYS :: "(string \<times> handler) list" where
  "METADATA_KEYS =
    [(''name'', str_handler ''name''),
     (''version'', str_handler ''version''),
     (''home_page'', str_handler ''url''),
     (''download_url'', str_handler ''download_url''),
     (''author'', str_handler ''author''),
     (''author_email'', str_handler ''author_email''),
     (''maintainer'', str_handler ''maintainer''),
     (''maintainer_email'', str_handler ''maintainer_email''),
     (''classifiers'', list_comma_handler ''classifiers'' True),
     (''license'', str_handler ''license''),
     (''summary'', str_handler ''description''),
     (''description'', long_description_handler ''long_description''),
     (''keywords'', list_comma_handler ''keywords'' False),
     (''platforms'', list_comma_handler ''platforms'' False),
     (''provides'', list_comma_handler ''provides'' False),
     (''requires'', list_comma_handler ''requires'' False),
     (''obsoletes'', list_comma_handler ''obsoletes'' False)]"

section \<open>More of Python's strings\<close>

text \<open>
  \<open>str.isspace\<close> on one code point below 256: tab to carriage return, the four separators
  28 to 31, space, next line (133) and no-break space (160).
\<close>

definition py_isspace :: "char \<Rightarrow> bool" where
  "py_isspace c = (of_char c \<in> {9, 10, 11, 12, 13, 28, 29, 30, 31, 32, 133, 160 :: nat})"

text \<open>\<open>s.strip()\<close>\<close>

definition py_strip :: "string \<Rightarrow> string" where
  "py_strip s = rev (dropWhile py_isspace (rev (dropWhile py_isspace s)))"

text \<open>\<open>s[1:-1]\<close>\<close>

definition slice_1_m1 :: "string \<Rightarrow> string" where
  "slice_1_m1 s = butlast (tl s)"

text \<open>\<open>s.lower()\<close> on code points below 256: A to Z and the capital letters of Latin-1.\<close>

definition py_lower_char :: "char \<Rightarrow> char" where
  "py_lower_char c =
     (let n = (of_char c :: nat)
      in if (65 \<le> n \<and> n \<le> 90) \<or> (192 \<le> n \<and> n \<le> 222 \<and> n \<noteq> 215)
         then char_of (n + 32) else c)"

definition py_lower :: "string \<Rightarrow> string" where
  "py_lower s = map py_lower_char s"

text \<open>\<open>os.path.join(a, b)\<close> on POSIX.\<close>

definition os_path_join :: "string \<Rightarrow> string \<Rightarrow> string" where
  "os_path_join a b =
     (if startswith b ''/'' then b
      else if a = [] \<or> last a = CHR ''/'' then a @ b
      else a @ ''/'' @ b)"

text \<open>\<open>str(b)\<close> of a boolean.\<close>

definition str_bool :: "bool \<Rightarrow> string" where
  "str_bool b = (if b then ''True'' else ''False'')"

section \<open>The configuration document\<close>

text \<open>
  \<open>ConfigParser._sections\<close>: an ordered dictionary from section names to ordered
  dictionaries from option names to values. Both are association lists in insertion
  order. The \<open>DEFAULT\<close> section lives elsewhere in the parser and the program never
  writes to it.
\<close>

type_synonym options = "(string \<times> string) list"
type_synonym conf = "(string \<times> options) list"

datatype error =
    SystemExit nat "string list"
  | ValueError
  | NoSectionError string
  | DuplicateSectionError string
  | DuplicateOptionError string string
  | MissingSectionHeaderError
  | ParsingError

text \<open>\<open>d[k] = v\<close> on an ordered dictionary: an existing key keeps its place.\<close>

fun dict_set :: "'k \<Rightarrow> 'v \<Rightarrow> ('k \<times> 'v) list \<Rightarrow> ('k \<times> 'v) list" where
  "dict_set k v [] = [(k, v)]"
| "dict_set k v ((k', v') # kvs) =
     (if k' = k then (k, v) # kvs else (k', v') # dict_set k v kvs)"

definition has_section :: "conf \<Rightarrow> string \<Rightarrow> bool" where
  "has_section conf s = (s \<in> set (map fst conf))"

definition add_section :: "conf \<Rightarrow> string \<Rightarrow> conf" where
  "add_section conf s = conf @ [(s, [])]"

definition ensure_section :: "string \<Rightarrow> conf \<Rightarrow> conf" where
  "ensure_section s conf = (if \<not> has_section conf s then add_section conf s else conf)"

text \<open>
  \<open>BasicInterpolation.before_set\<close>: the value with every \<open>%%\<close> removed, then every
  match of the pattern \<open>%\(([^)]+)\)s\<close> removed, must hold no \<open>%\<close>.
\<close>

fun remove_pp :: "string \<Rightarrow> string" where
  "remove_pp (a # b # cs) =
     (if a = CHR ''%'' \<and> b = CHR ''%'' then remove_pp cs else a # remove_pp (b # cs))"
| "remove_pp cs = cs"

text \<open>After a \<open>%\<close>: an opening bracket, at least one character other than the closing
  bracket, the closing bracket and \<open>s\<close>; the rest of the string is returned.\<close>

definition match_key :: "string \<Rightarrow> string option" where
  "match_key cs =
     (case cs of
        [] \<Rightarrow> None
      | c # r \<Rightarrow>
          if c = CHR ''('' \<and> takeWhile (\<lambda>x. x \<noteq> CHR '')'') r \<noteq> []
             \<and> startswith (dropWhile (\<lambda>x. x \<noteq> CHR '')'') r) '')s''
          then Some (drop 2 (dropWhile (\<lambda>x. x \<noteq> CHR '')'') r))
          else None)"

function remove_keys :: "string \<Rightarrow> string" where
  "remove_keys [] = []"
| "remove_keys (c # cs) =
     (if c = CHR ''%''
      then (case match_key cs of
              Some r \<Rightarrow> remove_keys r
            | None \<Rightarrow> c # remove_keys cs)
      else c # remove_keys cs)"
  by pat_completeness auto
termination
proof (relation "measure length")
  fix c :: char and cs r :: string
  assume "c = CHR ''%''" and m: "match_key cs = Some r"
  from m obtain d t where cs: "cs = d # t"
    and r: "r = drop 2 (dropWhile (\<lambda>x. x \<noteq> CHR '')'') t)"
    by (auto simp: match_key_def split: list.splits if_splits)
  have "length (dropWhile (\<lambda>x. x \<noteq> CHR '')'') t) \<le> length t"
    by (rule length_dropWhile_le)
  with cs r show "(r, c # cs) \<in> measure length" by simp
qed simp_all

definition valid_interpolation :: "string \<Rightarrow> bool" where
  "valid_interpolation v = (CHR ''%'' \<notin> set (remove_keys (remove_pp v)))"

text \<open>
  \<open>conf.set(section, option, value)\<close>: a non-empty value is checked first, then the
  section is looked up, then the lower-cased option (\<open>optionxform\<close>) is set. The program
  calls it on four fixed section names, none of them empty or \<open>DEFAULT\<close>.
\<close>

definition conf_set :: "string \<Rightarrow> string \<Rightarrow> string \<Rightarrow> conf \<Rightarrow> error + conf" where
  "conf_set sect option v conf =
     (if v \<noteq> [] \<and> \<not> valid_interpolation v then Inl ValueError
      else case map_of conf sect of
             None \<Rightarrow> Inl (NoSectionError sect)
           | Some items \<Rightarrow> Inr (dict_set sect (dict_set (py_lower option) v items) conf))"

section \<open>The requirements file\<close>

text \<open>
  \<open>requires\<close> is a \<open>defaultdict(list)\<close>: appending under a missing key creates it, and so
  does reading it.
\<close>

type_synonym requires = "(string \<times> string list) list"

fun dd_append :: "string \<Rightarrow> string \<Rightarrow> requires \<Rightarrow> requires" where
  "dd_append k x [] = [(k, [x])]"
| "dd_append k x ((k', xs) # r) =
     (if k' = k then (k, xs @ [x]) # r else (k', xs) # dd_append k x r)"

definition dd_touch :: "string \<Rightarrow> requires \<Rightarrow> requires" where
  "dd_touch k r = (if k \<in> set (map fst r) then r else r @ [(k, [])])"

definition dd_get :: "requires \<Rightarrow> string \<Rightarrow> string list" where
  "dd_get r k = (case map_of r k of Some xs \<Rightarrow> xs | None \<Rightarrow> [])"

text \<open>The loop over the lines of \<open>requires.txt\<close>, with the current section and the
  dictionary as its state.\<close>

fun parse_requires :: "string \<Rightarrow> requires \<Rightarrow> string list \<Rightarrow> requires" where
  "parse_requires sect r [] = r"
| "parse_requires sect r (req # reqs) =
     (if startswith req ''[''
      then parse_requires (slice_1_m1 (py_strip req)) r reqs
      else if py_strip req \<noteq> []
      then parse_requires sect (dd_append sect (py_strip req) r) reqs
      else parse_requires sect r reqs)"

section \<open>The run\<close>

text \<open>
  What a run reads: the directories \<open>glob.glob('*.egg-info')\<close> finds once
  \<open>setup.py egg_info\<close> has run, the sections \<open>conf.read('setup.cfg')\<close> yields (none when
  there is no file), the attributes of the \<open>pkginfo\<close> object, and the two auxiliary files:
  \<open>entry_points.txt\<close> as the second parser gives it, for each section the pairs
  \<open>(item, entry[section][item])\<close> in iteration order, and \<open>requires.txt\<close> as its lines.
\<close>

record run_env = os_env +
  egg_info_glob :: "string list"
  setup_cfg :: conf
  dist_attr :: "string \<Rightarrow> pyval"
  dist_requires_python :: "string option"
  entry_points_txt :: "(string \<times> (string \<times> string) list) list"
  requires_txt :: "string list"

text \<open>Sequencing of steps that may raise.\<close>

fun bind_err :: "error + 'a \<Rightarrow> ('a \<Rightarrow> error + 'b) \<Rightarrow> error + 'b" where
  "bind_err (Inl e) f = Inl e"
| "bind_err (Inr x) f = f x"

text \<open>The loop over \<open>METADATA_KEYS.items()\<close>.\<close>

fun populate_metadata ::
  "'a run_env_scheme \<Rightarrow> (string \<times> handler) list \<Rightarrow> conf \<Rightarrow> error + conf" where
  "populate_metadata env [] conf = Inr conf"
| "populate_metadata env ((key, h) # rest) conf =
     (case serialize (os_env.truncate env) h (dist_attr env key) of
        None \<Rightarrow> populate_metadata env rest conf
      | Some translated \<Rightarrow>
          bind_err (conf_set ''metadata'' (setup_cfg_name h) translated conf)
            (populate_metadata env rest))"

definition populate_options :: "'a run_env_scheme \<Rightarrow> string \<Rightarrow> conf \<Rightarrow> error + conf" where
  "populate_options env egg_info_dir conf =
     bind_err (conf_set ''options'' ''zip_safe''
        (str_bool (\<not> path_exists env (os_path_join egg_info_dir ''not-zip-safe''))) conf)
     (\<lambda>conf. bind_err (conf_set ''options'' ''packages'' ''find:'' conf)
     (\<lambda>conf. bind_err (conf_set ''options'' ''include_package_data'' (str_bool True) conf)
     (\<lambda>conf. case dist_requires_python env of
                None \<Rightarrow> Inr conf
              | Some rp \<Rightarrow> conf_set ''options'' ''python_requires'' rp conf)))"

text \<open>The value written for one entry-point group.\<close>

definition entry_point_value :: "string \<Rightarrow> (string \<times> string) list \<Rightarrow> string" where
  "entry_point_value ls its =
     ls @ py_join ls (map (\<lambda>(item, v). item @ '' = '' @ v) its)"

fun set_entry_points ::
  "string \<Rightarrow> (string \<times> (string \<times> string) list) list \<Rightarrow> conf \<Rightarrow> error + conf" where
  "set_entry_points ls [] conf = Inr conf"
| "set_entry_points ls ((sect, its) # rest) conf =
     bind_err (conf_set ''options.entry_points'' sect (entry_point_value ls its) conf)
       (set_entry_points ls rest)"

definition entry_points_step :: "'a run_env_scheme \<Rightarrow> string \<Rightarrow> conf \<Rightarrow> error + conf" where
  "entry_points_step env egg_info_dir conf =
     (if path_exists env (os_path_join egg_info_dir ''entry_points.txt'')
      then set_entry_points (linesep env) (entry_points_txt env)
             (ensure_section ''options.entry_points'' conf)
      else Inr conf)"

text \<open>The loop over \<open>sorted(requires)\<close>.\<close>

fun set_extras :: "requires \<Rightarrow> string list \<Rightarrow> conf \<Rightarrow> error + conf" where
  "set_extras r [] conf = Inr conf"
| "set_extras r (sect # rest) conf =
     (if sect \<noteq> ''default''
      then bind_err (conf_set ''options.extras_require'' sect (py_join ''; '' (dd_get r sect)) conf)
             (set_extras r rest)
      else set_extras r rest conf)"

definition requires_step :: "'a run_env_scheme \<Rightarrow> string \<Rightarrow> conf \<Rightarrow> error + conf" where
  "requires_step env egg_info_dir conf =
     (if path_exists env (os_path_join egg_info_dir ''requires.txt'')
      then (let requires = parse_requires ''default'' [] (requires_txt env);
                requires' = dd_touch ''default'' requires
            in bind_err
                 (conf_set ''options'' ''install_requires''
                    (linesep env @ py_join (linesep env) (dd_get requires ''default'')) conf)
                 (\<lambda>conf. if length requires' > 1
                          then set_extras requires' (sort (map fst requires'))
                                 (ensure_section ''options.extras_require'' conf)
                          else Inr conf))
      else Inr conf)"

text \<open>The ordering key and the sort of the sections (Python's sort is stable).\<close>

definition sections_key :: "string \<Rightarrow> string" where
  "sections_key sect =
     (if sect = ''metadata'' then ''a''
      else if sect = ''options'' then ''b''
      else if startswith sect ''options'' then ''c'' @ sect
      else ''d'')"

definition sort_sections :: "conf \<Rightarrow> conf" where
  "sort_sections conf = sort_key (\<lambda>(sect, its). sections_key sect) conf"

text \<open>
  The sort rebuilds the dictionary from the sorted section names; on a dictionary, whose
  names are distinct, that is the stable sort of the entries by the key of their names.
\<close>

text \<open>\<open>main\<close> after the directory check, up to the document that is written.\<close>

definition main_body :: "'a run_env_scheme \<Rightarrow> string \<Rightarrow> error + conf" where
  "main_body env egg_info_dir =
     (let conf = ensure_section ''options'' (ensure_section ''metadata'' (setup_cfg env))
      in bind_err (populate_metadata env METADATA_KEYS conf)
         (\<lambda>conf. bind_err (populate_options env egg_info_dir conf)
         (\<lambda>conf. bind_err (entry_points_step env egg_info_dir conf)
         (\<lambda>conf. bind_err (requires_step env egg_info_dir conf)
         (\<lambda>conf. Inr (sort_sections conf))))))"

text \<open>\<open>main\<close>: \<open>sys.exit(1)\<close> after the message that prints the list found, or the
  body on the only directory.\<close>

definition main :: "'a run_env_scheme \<Rightarrow> error + conf" where
  "main env =
     (case egg_info_glob env of
        [egg_info_dir] \<Rightarrow> main_body env egg_info_dir
      | _ \<Rightarrow> Inl (SystemExit 1 (egg_info_glob env)))"




section \<open>Reading the written file back\<close>

text \<open>
  \<open>conf.read\<close> on the text of a file, as \<open>ConfigParser()\<close> with its default settings does
  it: delimiters \<open>=\<close> and \<open>:\<close>, comment prefixes \<open>#\<close> and \<open>;\<close>, no inline comments, empty
  lines kept in values, duplicates refused.
\<close>




















section \<open>The order of the sections, as the specification words it\<close>


section \<open>Example inputs\<close>

text \<open>A POSIX system whose working directory holds \<open>README.rst\<close> and nothing else.\<close>

definition posix :: os_env where
  "posix = \<lparr>path_exists = (=) ''README.rst'', linesep = ''\<newline>'', str_of_list = concat\<rparr>"

section \<open>Reading the document\<close>

text \<open>The value of an option of a section, when the document has both.\<close>

definition conf_get :: "conf \<Rightarrow> string \<Rightarrow> string \<Rightarrow> string option" where
  "conf_get conf sect option =
     (case map_of conf sect of None \<Rightarrow> None | Some its \<Rightarrow> map_of its option)"

text \<open>
  The package \<open>foo\<close> 1.0 on such a system: one metadata directory that holds the marker
  \<open>not-zip-safe\<close> and no auxiliary file, no \<open>setup.cfg\<close> and no \<open>README.rst\<close>.
\<close>

definition env_foo :: run_env where
  "env_foo =
     \<lparr>path_exists = (=) ''foo.egg-info/not-zip-safe'', linesep = ''\<newline>'', str_of_list = concat,
      egg_info_glob = [''foo.egg-info''], setup_cfg = [],
      dist_attr = (\<lambda>key. if key = ''name'' then PStr ''foo''
                           else if key = ''version'' then PStr ''1.0'' else PNone),
      dist_requires_python = None, entry_points_txt = [], requires_txt = []\<rparr>"

section \<open>Closed forms used in the proofs\<close>

text \<open>
  The loops of the run all set options of one fixed section. \<open>set_all\<close> is that loop on
  a list of options and values, \<open>apply_sets\<close> its effect on the options of the section,
  and the four lists are what the four loops set, in their order.
\<close>

definition apply_sets :: "(string \<times> string) list \<Rightarrow> options \<Rightarrow> options" where
  "apply_sets kvs its = foldl (\<lambda>its (k, v). dict_set (py_lower k) v its) its kvs"

fun set_all :: "string \<Rightarrow> (string \<times> string) list \<Rightarrow> conf \<Rightarrow> error + conf" where
  "set_all sect [] conf = Inr conf"
| "set_all sect ((k, v) # kvs) conf = bind_err (conf_set sect k v conf) (set_all sect kvs)"

definition metadata_sets :: "'a run_env_scheme \<Rightarrow> (string \<times> handler) list \<Rightarrow> (string \<times> string) list" where
  "metadata_sets env ks =
     List.map_filter (\<lambda>(key, h).
        map_option (\<lambda>t. (setup_cfg_name h, t)) (serialize (os_env.truncate env) h (dist_attr env key))) ks"

definition options_sets :: "'a run_env_scheme \<Rightarrow> string \<Rightarrow> (string \<times> string) list" where
  "options_sets env d =
     [(''zip_safe'', str_bool (\<not> path_exists env (os_path_join d ''not-zip-safe''))),
      (''packages'', ''find:''),
      (''include_package_data'', str_bool True)]
     @ (case dist_requires_python env of None \<Rightarrow> [] | Some rp \<Rightarrow> [(''python_requires'', rp)])"

definition entry_points_sets :: "string \<Rightarrow> (string \<times> (string \<times> string) list) list \<Rightarrow> (string \<times> string) list" where
  "entry_points_sets ls es = map (\<lambda>(sect, its). (sect, entry_point_value ls its)) es"

definition extras_sets :: "requires \<Rightarrow> string list \<Rightarrow> (string \<times> string) list" where
  "extras_sets r gs = map (\<lambda>g. (g, py_join ''; '' (dd_get r g))) (filter (\<lambda>g. g \<noteq> ''default'') gs)"

text \<open>The options of a section, none when the section is missing, and the effect of
  making sure a section exists and then setting options in it.\<close>

definition section_items :: "conf \<Rightarrow> string \<Rightarrow> options" where
  "section_items c s = (case map_of c s of Some its \<Rightarrow> its | None \<Rightarrow> [])"

definition set_section :: "string \<Rightarrow> (string \<times> string) list \<Rightarrow> conf \<Rightarrow> conf" where
  "set_section s kvs c = dict_set s (apply_sets kvs (section_items c s)) c"

text \<open>
  The requirement groups after the read of \<open>requires['default']\<close>, the one set of
  \<open>install_requires\<close>, and the document a run writes when no set raises: every section the
  run needs is made sure of and set in the order of \<open>main\<close>, then the sections are sorted.
\<close>

definition requires_of :: "'a run_env_scheme \<Rightarrow> requires" where
  "requires_of env = dd_touch ''default'' (parse_requires ''default'' [] (requires_txt env))"

definition install_requires_sets :: "'a run_env_scheme \<Rightarrow> (string \<times> string) list" where
  "install_requires_sets env =
     [(''install_requires'',
       linesep env @ py_join (linesep env) (dd_get (requires_of env) ''default''))]"

definition unsorted :: "'a run_env_scheme \<Rightarrow> string \<Rightarrow> conf" where
  "unsorted env d =
     (let c0 = ensure_section ''options'' (ensure_section ''metadata'' (setup_cfg env));
          c1 = set_section ''metadata'' (metadata_sets env METADATA_KEYS) c0;
          c2 = set_section ''options'' (options_sets env d) c1;
          c3 = (if path_exists env (os_path_join d ''entry_points.txt'')
                then set_section ''options.entry_points''
                       (entry_points_sets (linesep env) (entry_points_txt env)) c2
                else c2)
      in (if path_exists env (os_path_join d ''requires.txt'')
          then (let c = set_section ''options'' (install_requires_sets env) c3
                in if length (requires_of env) > 1
                   then set_section ''options.extras_require''
                          (extras_sets (requires_of env) (sort (map fst (requires_of env)))) c
                   else c)
          else c3))"

definition merged :: "'a run_env_scheme \<Rightarrow> string \<Rightarrow> conf" where
  "merged env d = sort_sections (unsorted env d)"

text \<open>What the run sets in each section, in the order of the calls.\<close>

definition section_sets :: "'a run_env_scheme \<Rightarrow> string \<Rightarrow> string \<Rightarrow> (string \<times> string) list" where
  "section_sets env d s =
     (if s = ''metadata'' then metadata_sets env METADATA_KEYS
      else if s = ''options''
      then options_sets env d
           @ (if path_exists env (os_path_join d ''requires.txt'')
              then install_requires_sets env else [])
      else if s = ''options.entry_points''
      then (if path_exists env (os_path_join d ''entry_points.txt'')
            then entry_points_sets (linesep env) (entry_points_txt env) else [])
      else if s = ''options.extras_require''
      then (if path_exists env (os_path_join d ''requires.txt'') \<and> length (requires_of env) > 1
            then extras_sets (requires_of env) (sort (map fst (requires_of env))) else [])
      else [])"

text \<open>The same package with a \<open>requires.txt\<close> of one requirement and one extra.\<close>

definition env_reqs :: run_env where
  "env_reqs = env_foo
     \<lparr>path_exists := (=) ''foo.egg-info/requires.txt'',
      requires_txt := [''a\<newline>'', ''[extra1]\<newline>'', ''b\<newline>'']\<rparr>"

text \<open>Two extras, \<open>zeta\<close> before \<open>alpha\<close> in the file: on a fresh document, and on a
  document that already has the key \<open>zeta\<close>.\<close>

definition env_extras :: run_env where
  "env_extras = env_foo
     \<lparr>path_exists := (=) ''foo.egg-info/requires.txt'',
      requires_txt := [''[zeta]\<newline>'', ''z1\<newline>'', ''z2\<newline>'', ''[alpha]\<newline>'', ''b\<newline>'']\<rparr>"

definition env_zeta_first :: run_env where
  "env_zeta_first = env_foo
     \<lparr>path_exists := (=) ''foo.egg-info/requires.txt'',
      setup_cfg := [(''options.extras_require'', [(''zeta'', ''old'')])],
      requires_txt := [''a\<newline>'', ''[zeta]\<newline>'', ''z1\<newline>'', ''[alpha]\<newline>'', ''b\<newline>'']\<rparr>"









section \<open>Properties of the section order\<close>








text \<open>
  C10. The sections of the last rank, those whose key is \<open>d\<close>, are neither \<open>metadata\<close>
  nor \<open>options\<close> nor a name starting with \<open>options\<close>; the sort keeps them in the order
  they had in the document, which need not be the order of their names: \<open>zzz\<close> before
  \<open>aaa\<close> stays so.
\<close>

theorem last_rank_sections_keep_their_order:
  "filter (\<lambda>(sect, its). sections_key sect = ''d'') (sort_sections conf)
     = filter (\<lambda>(sect, its). sections_key sect = ''d'') conf
   \<and> (sections_key s = ''d'') =
       (s \<noteq> ''metadata'' \<and> s \<noteq> ''options'' \<and> \<not> startswith s ''options'')
   \<and> sort_sections [(''zzz'', a), (''aaa'', b)] = [(''zzz'', a), (''aaa'', b)]"
proof -
  have "filter (\<lambda>(sect, its). sections_key sect = ''d'') (sort_sections conf)
     = filter (\<lambda>(sect, its). sections_key sect = ''d'') conf"
    unfolding sort_sections_def
    using sort_key_stable [of "\<lambda>(sect, its). sections_key sect" "''d''" conf]
    by (simp add: case_prod_unfold)
  moreover have "(sections_key s = ''d'') =
       (s \<noteq> ''metadata'' \<and> s \<noteq> ''options'' \<and> \<not> startswith s ''options'')"
    by (simp add: sections_key_def)
  moreover have "sort_sections [(''zzz'', a), (''aaa'', b)] = [(''zzz'', a), (''aaa'', b)]"
    by (simp add: sort_sections_def sections_key_def startswith_def)
  ultimately show ?thesis by blast
qed

section \<open>Properties of the field translators\<close>

lemma startswith_append: "startswith (p @ s) p"
  by (simp add: startswith_def)

lemma not_startswith_fresh:
  "sep \<noteq> [] \<Longrightarrow> c \<notin> set sep \<Longrightarrow> \<not> startswith (c # cs) sep"
  by (cases sep) (auto simp: startswith_def)

text \<open>A piece that shares no character with the separator is cut off at the separator
  that follows it.\<close>

lemma py_split_go_piece:
  assumes "sep \<noteq> []" and "set x \<inter> set sep = {}"
  shows "py_split_go sep acc (x @ sep @ rest) = (acc @ x) # py_split_go sep [] rest"
  using assms(2)
proof (induction x arbitrary: acc)
  case Nil
  obtain c cs where e: "sep @ rest = c # cs"
    using assms(1) by (cases sep) auto
  have "py_split_go sep acc (sep @ rest) = acc # py_split_go sep [] (drop (length sep) (sep @ rest))"
    unfolding e using assms(1) startswith_append [of sep rest] by (simp add: e)
  then show ?case by simp
next
  case (Cons c x)
  then have "c \<notin> set sep" and "set x \<inter> set sep = {}" by auto
  with Cons.IH [of "acc @ [c]"] assms(1) show ?case
    by (simp add: not_startswith_fresh)
qed

lemma py_split_go_last:
  assumes "sep \<noteq> []" and "set x \<inter> set sep = {}"
  shows "py_split_go sep acc x = [acc @ x]"
  using assms(2)
proof (induction x arbitrary: acc)
  case Nil
  show ?case by simp
next
  case (Cons c x)
  then have "c \<notin> set sep" and "set x \<inter> set sep = {}" by auto
  with Cons.IH [of "acc @ [c]"] assms(1) show ?case
    by (simp add: not_startswith_fresh)
qed

lemma py_split_join:
  assumes "sep \<noteq> []"
  shows "vals \<noteq> [] \<Longrightarrow> \<forall>v \<in> set vals. set v \<inter> set sep = {}
    \<Longrightarrow> py_split sep (py_join sep vals) = vals"
proof (induction vals)
  case Nil
  then show ?case by simp
next
  case (Cons x vals)
  show ?case
  proof (cases vals)
    case Nil
    with Cons.prems assms show ?thesis
      by (simp add: py_split_def py_split_go_last)
  next
    case (Cons y ys)
    with Cons.IH Cons.prems have ih: "py_split_go sep [] (py_join sep (y # ys)) = y # ys"
      by (simp add: py_split_def)
    from Cons.prems have "set x \<inter> set sep = {}" by simp
    then have "py_split_go sep [] (x @ sep @ py_join sep (y # ys))
        = ([] @ x) # py_split_go sep [] (py_join sep (y # ys))"
      by (rule py_split_go_piece [OF assms])
    with ih Cons show ?thesis by (simp add: py_split_def)
  qed
qed

text \<open>
  C8, as the code has it. For a non-empty list other than \<open>['UNKNOWN']\<close> the compact form
  is the elements joined by \<open>', '\<close> and the multi-line form is the line separator followed
  by the elements joined by it; a string is split on \<open>','\<close> first; \<open>['a', 'b', 'c']\<close> gives
  \<open>'a, b, c'\<close>. Splitting the multi-line form, without its leading separator, at the
  separator gives the elements back when no element holds a character of the separator.
\<close>

theorem list_translator_forms:
  assumes "vals \<noteq> []" and "vals \<noteq> [''UNKNOWN'']"
  shows "serialize os (list_comma_handler n False) (PList vals) = Some (py_join '', '' vals)
    \<and> serialize os (list_comma_handler n True) (PList vals)
        = Some (linesep os @ py_join (linesep os) vals)
    \<and> (linesep os \<noteq> [] \<and> (\<forall>v \<in> set vals. set v \<inter> set (linesep os) = {})
        \<longrightarrow> py_split (linesep os)
              (drop (length (linesep os)) (linesep os @ py_join (linesep os) vals)) = vals)
    \<and> serialize os (list_comma_handler n nl) (PStr s)
        = serialize os (list_comma_handler n nl) (PList (py_split '','' s))
    \<and> serialize os (list_comma_handler n False) (PList [''a'', ''b'', ''c'']) = Some ''a, b, c''"
proof -
  have "serialize os (list_comma_handler n False) (PList vals) = Some (py_join '', '' vals)"
    using assms by (simp add: list_comma_join_def)
  moreover have "serialize os (list_comma_handler n True) (PList vals)
        = Some (linesep os @ py_join (linesep os) vals)"
    using assms by (simp add: list_comma_join_def)
  moreover have "linesep os \<noteq> [] \<and> (\<forall>v \<in> set vals. set v \<inter> set (linesep os) = {})
        \<longrightarrow> py_split (linesep os)
              (drop (length (linesep os)) (linesep os @ py_join (linesep os) vals)) = vals"
    using assms(1) by (simp add: py_split_join)
  moreover have "serialize os (list_comma_handler n nl) (PStr s)
        = serialize os (list_comma_handler n nl) (PList (py_split '','' s))"
    by simp
  moreover have "serialize os (list_comma_handler n False) (PList [''a'', ''b'', ''c''])
        = Some ''a, b, c''"
    by (simp add: list_comma_join_def)
  ultimately show ?thesis by blast
qed

theorem list_translator_forms_witness:
  "[''a'', ''b'', ''c''] \<noteq> [] \<and> [''a'', ''b'', ''c''] \<noteq> [''UNKNOWN'']
   \<and> linesep posix \<noteq> [] \<and> set ''a'' \<inter> set (linesep posix) = {}
   \<and> set ''b'' \<inter> set (linesep posix) = {} \<and> set ''c'' \<inter> set (linesep posix) = {}
   \<and> serialize posix (list_comma_handler ''keywords'' False) (PList [''a'', ''b'', ''c''])
       = Some ''a, b, c''
   \<and> serialize posix (list_comma_handler ''classifiers'' True) (PList [''a'', ''b'', ''c''])
       = Some ''\<newline>a\<newline>b\<newline>c''
   \<and> py_split (linesep posix) (drop (length (linesep posix)) ''\<newline>a\<newline>b\<newline>c'')
       = [''a'', ''b'', ''c'']"
  using list_translator_forms [of "[''a'', ''b'', ''c'']" posix "''classifiers''" True "''x''"]
    list_translator_forms [of "[''a'', ''b'', ''c'']" posix "''keywords''" False "''x''"]
  by (simp add: posix_def)

text \<open>
  The claim as written fails on an element that holds the line separator: the only
  element \<open>a\<newline>b\<close> comes back as the two elements \<open>a\<close> and \<open>b\<close>.
\<close>

theorem list_translator_roundtrip_counterexample:
  "[''a\<newline>b''] \<noteq> [] \<and> [''a\<newline>b''] \<noteq> [''UNKNOWN'']
   \<and> serialize posix (list_comma_handler ''classifiers'' True) (PList [''a\<newline>b''])
       = Some ''\<newline>a\<newline>b''
   \<and> py_split (linesep posix) (drop (length (linesep posix)) ''\<newline>a\<newline>b'')
       = [''a'', ''b'']
   \<and> [''a'', ''b''] \<noteq> [''a\<newline>b'']"
  by (simp add: posix_def list_comma_join_def py_split_def startswith_def)

text \<open>
  C1, as the code has it. Every translator of the table other than the long-description
  one gives \<open>None\<close> on \<open>None\<close>. The list translator gives \<open>None\<close> on the empty list, on
  \<open>['UNKNOWN']\<close> and on the string \<open>'UNKNOWN'\<close>. The long-description translator ignores
  its input: it gives \<open>None\<close> exactly when there is no \<open>README.rst\<close>. The string
  translator returns every string as it is, \<open>'UNKNOWN'\<close> and the empty string included.
\<close>

theorem translators_on_absent_values:
  "(\<forall>(key, h) \<in> set METADATA_KEYS.
      serialize os h PNone =
        (if h = long_description_handler ''long_description'' \<and> path_exists os ''README.rst''
         then Some ''file: README.rst'' else None))
   \<and> serialize os (list_comma_handler n nl) (PList []) = None
   \<and> serialize os (list_comma_handler n nl) (PList [''UNKNOWN'']) = None
   \<and> serialize os (list_comma_handler n nl) (PStr ''UNKNOWN'') = None
   \<and> serialize os (long_description_handler n) v
       = (if path_exists os ''README.rst'' then Some ''file: README.rst'' else None)
   \<and> serialize os (str_handler n) (PStr s) = Some s"
proof -
  have "\<forall>(key, h) \<in> set METADATA_KEYS.
      serialize os h PNone =
        (if h = long_description_handler ''long_description'' \<and> path_exists os ''README.rst''
         then Some ''file: README.rst'' else None)"
    by (simp add: METADATA_KEYS_def)
  moreover have "serialize os (list_comma_handler n nl) (PList []) = None"
    by (simp add: list_comma_join_def)
  moreover have "serialize os (list_comma_handler n nl) (PList [''UNKNOWN'']) = None"
    by (simp add: list_comma_join_def)
  moreover have "serialize os (list_comma_handler n nl) (PStr ''UNKNOWN'') = None"
    by (simp add: list_comma_join_def py_split_def startswith_def)
  moreover have "serialize os (long_description_handler n) v
       = (if path_exists os ''README.rst'' then Some ''file: README.rst'' else None)"
    by simp
  moreover have "serialize os (str_handler n) (PStr s) = Some s"
    by simp
  ultimately show ?thesis by blast
qed

theorem translators_on_absent_values_witness:
  "(''classifiers'', list_comma_handler ''classifiers'' True) \<in> set METADATA_KEYS
   \<and> serialize posix (list_comma_handler ''classifiers'' True) PNone = None
   \<and> (''name'', str_handler ''name'') \<in> set METADATA_KEYS
   \<and> serialize posix (str_handler ''name'') PNone = None"
  using translators_on_absent_values [where os = posix and n = "''classifiers''" and nl = True
      and v = PNone and s = "''x''"]
  by (simp add: METADATA_KEYS_def)

text \<open>
  The claim as written fails twice where \<open>README.rst\<close> exists or the value is a string:
  the long-description translator of the table turns \<open>None\<close> into the file reference, and
  the string translator passes the sentinel \<open>'UNKNOWN'\<close> through.
\<close>

theorem translators_absent_counterexample:
  "(''description'', long_description_handler ''long_description'') \<in> set METADATA_KEYS
   \<and> serialize posix (long_description_handler ''long_description'') PNone
       = Some ''file: README.rst''
   \<and> (''name'', str_handler ''name'') \<in> set METADATA_KEYS
   \<and> serialize posix (str_handler ''name'') (PStr ''UNKNOWN'') = Some ''UNKNOWN''"
  by (simp add: METADATA_KEYS_def posix_def)

section \<open>Properties of the document operations\<close>

lemma bind_err_Inr: "bind_err m f = Inr y \<longleftrightarrow> (\<exists>x. m = Inr x \<and> f x = Inr y)"
  by (cases m) auto

lemma bind_err_Inl: "bind_err m f = Inl e \<longleftrightarrow> m = Inl e \<or> (\<exists>x. m = Inr x \<and> f x = Inl e)"
  by (cases m) auto

lemma map_of_dict_set: "map_of (dict_set k v d) = (map_of d)(k \<mapsto> v)"
  by (induction d) (auto simp: fun_eq_iff)

lemma keys_dict_set:
  "map fst (dict_set k v d) = (if k \<in> set (map fst d) then map fst d else map fst d @ [k])"
  by (induction d) (force simp: image_iff)+

lemma map_of_Some_fst: "map_of c s = Some its \<Longrightarrow> s \<in> fst ` set c"
  by (metis domI dom_map_of_conv_image_fst)

lemma conf_set_Inr:
  "conf_set sect option v conf = Inr conf' \<longleftrightarrow>
     (v = [] \<or> valid_interpolation v)
     \<and> (\<exists>its. map_of conf sect = Some its
          \<and> conf' = dict_set sect (dict_set (py_lower option) v its) conf)"
  by (auto simp: conf_set_def split: option.splits)

lemma conf_set_sections:
  "conf_set sect option v conf = Inr conf' \<Longrightarrow>
     map_of conf' = (map_of conf)(sect \<mapsto> dict_set (py_lower option) v (the (map_of conf sect)))"
  by (auto simp: conf_set_Inr map_of_dict_set)

lemma conf_set_names:
  "conf_set sect option v conf = Inr conf' \<Longrightarrow> map fst conf' = map fst conf"
  by (auto simp: conf_set_Inr keys_dict_set dest: map_of_Some_fst)

lemma conf_set_get:
  "conf_set sect option v conf = Inr conf' \<Longrightarrow>
     conf_get conf' s k = (if s = sect \<and> k = py_lower option then Some v else conf_get conf s k)"
  by (auto simp: conf_set_Inr conf_get_def map_of_dict_set)


lemma map_of_ensure_section:
  "map_of (ensure_section s conf) s' =
     (if s' = s \<and> map_of conf s = None then Some [] else map_of conf s')"
proof -
  have h: "has_section conf s \<longleftrightarrow> map_of conf s \<noteq> None"
    by (simp add: has_section_def map_of_eq_None_iff)
  show ?thesis
    by (cases "map_of conf s") (auto simp: ensure_section_def h add_section_def map_add_def
        split: option.splits)
qed

lemma conf_get_ensure_section: "conf_get (ensure_section s conf) = conf_get conf"
  by (auto simp: fun_eq_iff conf_get_def map_of_ensure_section)

lemma map_of_filter_fst:
  "map_of xs k = (case filter (\<lambda>p. fst p = k) xs of [] \<Rightarrow> None | p # ps \<Rightarrow> Some (snd p))"
  by (induction xs) auto

lemma map_of_sort_sections: "map_of (sort_sections conf) = map_of conf"
proof
  fix k
  let ?P = "\<lambda>p::string \<times> options. fst p = k"
  let ?f = "\<lambda>(sect, its). sections_key sect"
  let ?Q = "\<lambda>p. ?f p = sections_key k"
  have narrow: "filter ?P zs = filter ?P (filter ?Q zs)" for zs
    by (induction zs) auto
  have "filter ?P (sort_key ?f conf) = filter ?P (filter ?Q (sort_key ?f conf))"
    by (rule narrow)
  also have "\<dots> = filter ?P (filter ?Q conf)"
    by (simp only: sort_key_stable)
  also have "\<dots> = filter ?P conf"
    by (rule narrow [symmetric])
  finally show "map_of (sort_sections conf) k = map_of conf k"
    by (simp add: map_of_filter_fst sort_sections_def)
qed

lemma conf_get_sort_sections: "conf_get (sort_sections conf) = conf_get conf"
  by (simp add: fun_eq_iff conf_get_def map_of_sort_sections)

section \<open>The directory check\<close>








section \<open>The loops as runs of sets on one section\<close>

lemma dict_set_same: "map_of c s = Some its \<Longrightarrow> dict_set s its c = c"
  by (induction c) (auto split: if_splits)

lemma dict_set_twice: "dict_set s a (dict_set s b c) = dict_set s a c"
  by (induction c) auto

lemma set_all_append:
  "set_all s (xs @ ys) c = bind_err (set_all s xs c) (set_all s ys)"
proof (induction xs arbitrary: c)
  case Nil
  show ?case by simp
next
  case (Cons x xs)
  obtain k v where x: "x = (k, v)" by (cases x)
  show ?case unfolding x by (cases "conf_set s k v c") (simp_all add: Cons.IH)
qed

text \<open>What a run of sets on one section leaves.\<close>

lemma set_all_Inr:
  assumes "map_of c s = Some its" and "set_all s kvs c = Inr c'"
  shows "c' = dict_set s (apply_sets kvs its) c"
  using assms
proof (induction kvs arbitrary: c its)
  case Nil
  then show ?case by (simp add: apply_sets_def dict_set_same)
next
  case (Cons x kvs)
  obtain k v where x: "x = (k, v)" by (cases x)
  from Cons.prems(2) obtain c1 where c1: "conf_set s k v c = Inr c1"
    and rest: "set_all s kvs c1 = Inr c'"
    by (auto simp: x bind_err_Inr)
  from c1 Cons.prems(1) have e: "c1 = dict_set s (dict_set (py_lower k) v its) c"
    by (auto simp: conf_set_Inr)
  then have "map_of c1 s = Some (dict_set (py_lower k) v its)"
    by (simp add: map_of_dict_set)
  from Cons.IH [OF this rest] show ?case
    by (simp add: e x apply_sets_def dict_set_twice)
qed


lemma set_all_Inl:
  "set_all s kvs c = Inl e \<Longrightarrow> e = ValueError \<or> e = NoSectionError s"
proof (induction kvs arbitrary: c)
  case Nil
  then show ?case by simp
next
  case (Cons x kvs)
  obtain k v where x: "x = (k, v)" by (cases x)
  from Cons show ?case
    by (auto simp: x bind_err_Inl conf_set_def split: if_splits option.splits)
qed

lemma bind_err_cong:
  "(\<And>x. m = Inr x \<Longrightarrow> f x = g x) \<Longrightarrow> bind_err m f = bind_err m g"
  by (cases m) auto

lemma bind_err_Inr_right: "bind_err m Inr = m"
  by (cases m) auto

lemma set_all_Nil_fun: "set_all s [] = Inr"
  by (rule ext) simp

lemma populate_metadata_set_all:
  "populate_metadata env ks c = set_all ''metadata'' (metadata_sets env ks) c"
  by (induction ks arbitrary: c)
     (auto simp: metadata_sets_def List.map_filter_simps split: option.splits
        intro!: bind_err_cong)

lemma populate_options_set_all:
  "populate_options env d c = set_all ''options'' (options_sets env d) c"
  by (auto simp: populate_options_def options_sets_def set_all_Nil_fun bind_err_Inr_right
        split: option.splits intro!: bind_err_cong)

lemma set_entry_points_set_all:
  "set_entry_points ls es c = set_all ''options.entry_points'' (entry_points_sets ls es) c"
  by (induction es arbitrary: c)
     (auto simp: entry_points_sets_def intro!: bind_err_cong)

lemma set_extras_set_all:
  "set_extras r gs c = set_all ''options.extras_require'' (extras_sets r gs) c"
  by (induction gs arbitrary: c)
     (auto simp: extras_sets_def intro!: bind_err_cong)

lemma dict_set_absent: "k \<notin> fst ` set d \<Longrightarrow> dict_set k v d = d @ [(k, v)]"
  by (induction d) auto

lemma dict_set_ensure_section: "dict_set s x (ensure_section s c) = dict_set s x c"
proof (cases "s \<in> fst ` set c")
  case True
  then show ?thesis by (simp add: ensure_section_def has_section_def)
next
  case False
  have "dict_set s x (c @ [(s, [])]) = c @ [(s, x)]"
    using False by (induction c) auto
  with False show ?thesis
    by (simp add: ensure_section_def has_section_def add_section_def dict_set_absent)
qed

lemma map_of_ensure_same: "map_of (ensure_section s c) s = Some (section_items c s)"
  by (simp add: map_of_ensure_section section_items_def split: option.splits)

lemma section_items_ensure: "section_items (ensure_section s c) s' = section_items c s'"
  by (auto simp: section_items_def map_of_ensure_section split: option.splits)

lemma set_all_ensured:
  "set_all s kvs (ensure_section s c) = Inr c' \<Longrightarrow> c' = set_section s kvs c"
  using set_all_Inr [OF map_of_ensure_same, of s kvs c c']
  by (simp add: set_section_def dict_set_ensure_section)

lemma set_all_present:
  "map_of c s \<noteq> None \<Longrightarrow> set_all s kvs c = Inr c' \<Longrightarrow> c' = set_section s kvs c"
  using set_all_Inr [of c s _ kvs c']
  by (auto simp: set_section_def section_items_def)

lemma map_of_set_section:
  "map_of (set_section s kvs c) = (map_of c)(s \<mapsto> apply_sets kvs (section_items c s))"
  by (simp add: set_section_def map_of_dict_set)

lemma section_items_set_section:
  "section_items (set_section s kvs c) s' =
     (if s' = s then apply_sets kvs (section_items c s) else section_items c s')"
  by (simp add: section_items_def map_of_set_section)


lemma section_items_sort: "section_items (sort_sections c) s = section_items c s"
  by (simp add: section_items_def map_of_sort_sections)

lemma apply_sets_Nil: "apply_sets [] its = its"
  by (simp add: apply_sets_def)

lemma apply_sets_Cons: "apply_sets ((k, v) # kvs) its = apply_sets kvs (dict_set (py_lower k) v its)"
  by (simp add: apply_sets_def)

lemma apply_sets_append: "apply_sets (xs @ ys) its = apply_sets ys (apply_sets xs its)"
  by (simp add: apply_sets_def)

lemma map_of_apply_sets:
  "map_of (apply_sets kvs its) = map_of its ++ map_of (rev (map (\<lambda>(k, v). (py_lower k, v)) kvs))"
proof (induction kvs arbitrary: its)
  case Nil
  show ?case by (simp add: apply_sets_Nil)
next
  case (Cons x kvs)
  obtain k v where x: "x = (k, v)" by (cases x)
  show ?case
    by (simp add: x apply_sets_Cons Cons.IH map_of_dict_set fun_eq_iff map_add_def
        split: option.splits)
qed

lemma conf_get_section_items: "conf_get c s k = map_of (section_items c s) k"
  by (simp add: conf_get_def section_items_def split: option.splits)

section \<open>The document a completed run writes\<close>

lemma dd_get_touch: "dd_get (dd_touch k r) k' = dd_get r k'"
proof (cases "k \<in> set (map fst r)")
  case True
  then show ?thesis by (simp add: dd_touch_def)
next
  case False
  then have "map_of r k = None" by (simp add: map_of_eq_None_iff)
  with False show ?thesis
    by (auto simp: dd_get_def dd_touch_def map_add_def split: option.splits)
qed

lemma map_of_set_section_present:
  "map_of c s' \<noteq> None \<Longrightarrow> map_of (set_section s kvs c) s' \<noteq> None"
  by (simp add: map_of_set_section)

lemma entry_points_step_Inr:
  "entry_points_step env d c = Inr c' \<Longrightarrow>
     c' = (if path_exists env (os_path_join d ''entry_points.txt'')
           then set_section ''options.entry_points''
                  (entry_points_sets (linesep env) (entry_points_txt env)) c
           else c)"
  by (auto simp: entry_points_step_def set_entry_points_set_all dest: set_all_ensured)

lemma requires_step_Inr:
  assumes "requires_step env d c = Inr c'" and "map_of c ''options'' \<noteq> None"
  shows "c' = (if path_exists env (os_path_join d ''requires.txt'')
           then (let c1 = set_section ''options'' (install_requires_sets env) c
                 in if length (requires_of env) > 1
                    then set_section ''options.extras_require''
                           (extras_sets (requires_of env) (sort (map fst (requires_of env)))) c1
                    else c1)
           else c)"
proof (cases "path_exists env (os_path_join d ''requires.txt'')")
  case False
  with assms show ?thesis by (simp add: requires_step_def)
next
  case True
  let ?v = "linesep env @ py_join (linesep env) (dd_get (requires_of env) ''default'')"
  from assms(1) True obtain c1 where
    c1: "conf_set ''options'' ''install_requires'' ?v c = Inr c1"
    and rest: "(if length (requires_of env) > 1
         then set_extras (requires_of env) (sort (map fst (requires_of env)))
                (ensure_section ''options.extras_require'' c1)
         else Inr c1) = Inr c'"
    by (auto simp: requires_step_def Let_def bind_err_Inr requires_of_def dd_get_touch
        split: if_splits)
  from c1 have "set_all ''options'' (install_requires_sets env) c = Inr c1"
    by (simp add: install_requires_sets_def bind_err_Inr_right)
  with assms(2) have e1: "c1 = set_section ''options'' (install_requires_sets env) c"
    by (rule set_all_present)
  show ?thesis
  proof (cases "length (requires_of env) > 1")
    case False
    with rest e1 True show ?thesis by (simp add: Let_def)
  next
    case gt: True
    with rest have "set_all ''options.extras_require''
        (extras_sets (requires_of env) (sort (map fst (requires_of env))))
        (ensure_section ''options.extras_require'' c1) = Inr c'"
      by (simp add: set_extras_set_all)
    then have "c' = set_section ''options.extras_require''
        (extras_sets (requires_of env) (sort (map fst (requires_of env)))) c1"
      by (rule set_all_ensured)
    with e1 True gt show ?thesis by (simp add: Let_def)
  qed
qed

lemma main_body_Inr:
  assumes "main_body env d = Inr c"
  shows "c = merged env d"
proof -
  let ?c0 = "ensure_section ''options'' (ensure_section ''metadata'' (setup_cfg env))"
  from assms obtain c1 c2 c3 c4 where
    s1: "populate_metadata env METADATA_KEYS ?c0 = Inr c1"
    and s2: "populate_options env d c1 = Inr c2"
    and s3: "entry_points_step env d c2 = Inr c3"
    and s4: "requires_step env d c3 = Inr c4"
    and s5: "c = sort_sections c4"
    by (auto simp: main_body_def Let_def bind_err_Inr)
  have m0: "map_of ?c0 ''metadata'' \<noteq> None" and o0: "map_of ?c0 ''options'' \<noteq> None"
    by (simp_all add: map_of_ensure_section)
  from s1 m0 have e1: "c1 = set_section ''metadata'' (metadata_sets env METADATA_KEYS) ?c0"
    by (simp add: populate_metadata_set_all set_all_present)
  with o0 have o1: "map_of c1 ''options'' \<noteq> None"
    by (simp add: map_of_set_section)
  from s2 o1 have e2: "c2 = set_section ''options'' (options_sets env d) c1"
    by (simp add: populate_options_set_all set_all_present)
  then have o2: "map_of c2 ''options'' \<noteq> None"
    by (simp add: map_of_set_section)
  note e3 = entry_points_step_Inr [OF s3]
  with o2 have o3: "map_of c3 ''options'' \<noteq> None"
    by (simp add: map_of_set_section)
  note e4 = requires_step_Inr [OF s4 o3]
  show ?thesis
    unfolding merged_def unsorted_def Let_def s5 e4 e3 e2 e1 by (simp add: Let_def)
qed

lemma section_items_merged:
  "section_items (merged env d) s = apply_sets (section_sets env d s) (section_items (setup_cfg env) s)"
  by (simp add: merged_def unsorted_def Let_def section_items_sort section_items_set_section
      section_items_ensure section_sets_def apply_sets_append apply_sets_Nil)


lemma has_section_merged:
  "has_section (merged env d) s \<longleftrightarrow>
     has_section (setup_cfg env) s \<or> s = ''metadata'' \<or> s = ''options''
     \<or> (s = ''options.entry_points'' \<and> path_exists env (os_path_join d ''entry_points.txt''))
     \<or> (s = ''options.extras_require'' \<and> path_exists env (os_path_join d ''requires.txt'')
         \<and> length (requires_of env) > 1)"
proof -
  have h: "has_section c s \<longleftrightarrow> map_of c s \<noteq> None" for c
    by (simp add: has_section_def map_of_eq_None_iff)
  show ?thesis
    unfolding h
    by (simp add: merged_def unsorted_def Let_def map_of_sort_sections map_of_set_section map_of_ensure_section)
qed

lemma conf_get_merged:
  "conf_get (merged env d) s k =
     (case map_of (rev (map (\<lambda>(k, v). (py_lower k, v)) (section_sets env d s))) k of
        Some v \<Rightarrow> Some v
      | None \<Rightarrow> conf_get (setup_cfg env) s k)"
  by (simp add: conf_get_section_items section_items_merged map_of_apply_sets map_add_def
      split: option.splits)


lemma apply_sets_fresh:
  assumes "distinct (map (\<lambda>x. py_lower (fst x)) kvs)"
    and "(\<lambda>x. py_lower (fst x)) ` set kvs \<inter> fst ` set its = {}"
  shows "apply_sets kvs its = its @ map (\<lambda>(k, v). (py_lower k, v)) kvs"
  using assms
proof (induction kvs arbitrary: its)
  case Nil
  show ?case by (simp add: apply_sets_Nil)
next
  case (Cons x kvs)
  obtain k v where x: "x = (k, v)" by (cases x)
  from Cons.prems have a: "py_lower k \<notin> fst ` set its" by (simp add: x)
  then have d: "dict_set (py_lower k) v its = its @ [(py_lower k, v)]"
    by (rule dict_set_absent)
  from Cons.prems have "distinct (map (\<lambda>x. py_lower (fst x)) kvs)"
    and "(\<lambda>x. py_lower (fst x)) ` set kvs \<inter> fst ` set (its @ [(py_lower k, v)]) = {}"
    by (auto simp: x)
  from Cons.IH [OF this] show ?case
    by (simp add: x apply_sets_Cons d)
qed

section \<open>The requirements file in the written document\<close>

lemma main_Inr: "main env = Inr c \<Longrightarrow> \<exists>d. egg_info_glob env = [d] \<and> c = merged env d"
  by (auto simp: main_def split: list.splits dest: main_body_Inr)

lemma main_Inr_dir: "main env = Inr c \<Longrightarrow> egg_info_glob env = [d] \<Longrightarrow> c = merged env d"
  by (auto dest: main_Inr)

lemma bracketed_name: "slice_1_m1 (py_strip (''['' @ g @ '']\<newline>'')) = g"
  by (simp add: py_strip_def py_isspace_def slice_1_m1_def)

lemma py_lower_literals:
  "py_lower ''zip_safe'' = ''zip_safe''" "py_lower ''packages'' = ''packages''"
  "py_lower ''include_package_data'' = ''include_package_data''"
  "py_lower ''python_requires'' = ''python_requires''"
  "py_lower ''install_requires'' = ''install_requires''"
  by (simp_all add: py_lower_def py_lower_char_def)

lemma install_requires_merged:
  assumes "path_exists env (os_path_join d ''requires.txt'')"
  shows "conf_get (merged env d) ''options'' ''install_requires''
     = Some (linesep env @ py_join (linesep env) (dd_get (requires_of env) ''default''))"
  using assms
  by (simp add: conf_get_merged section_sets_def install_requires_sets_def py_lower_literals)

lemma example_parse:
  "parse_requires ''default'' [] [''a\<newline>'', ''[extra1]\<newline>'', ''b\<newline>'']
     = [(''default'', [''a'']), (''extra1'', [''b''])]"
  by (simp add: startswith_def py_strip_def py_isspace_def slice_1_m1_def)


lemma example_requires_of:
  assumes "requires_txt env = [''a\<newline>'', ''[extra1]\<newline>'', ''b\<newline>'']"
  shows "requires_of env = [(''default'', [''a'']), (''extra1'', [''b''])]"
  unfolding requires_of_def assms example_parse by (simp add: dd_touch_def)

lemma example_written:
  assumes "main env = Inr c" and "egg_info_glob env = [d]"
    and "path_exists env (os_path_join d ''requires.txt'')"
    and "requires_txt env = [''a\<newline>'', ''[extra1]\<newline>'', ''b\<newline>'']"
  shows "conf_get c ''options'' ''install_requires'' = Some (linesep env @ ''a'')
    \<and> conf_get c ''options.extras_require'' ''extra1'' = Some ''b''
    \<and> has_section c ''options.extras_require''"
proof -
  have c: "c = merged env d" using assms(1,2) by (rule main_Inr_dir)
  note r = example_requires_of [OF assms(4)]
  have "conf_get c ''options'' ''install_requires'' = Some (linesep env @ ''a'')"
    unfolding c using assms(3) by (simp add: install_requires_merged r dd_get_def)
  moreover have "conf_get c ''options.extras_require'' ''extra1'' = Some ''b''"
    unfolding c using assms(3)
    by (simp add: conf_get_merged section_sets_def r extras_sets_def dd_get_def
        py_lower_def py_lower_char_def)
  moreover have "has_section c ''options.extras_require''"
    unfolding c using assms(3) by (simp add: has_section_merged r)
  ultimately show ?thesis by blast
qed

text \<open>
  C2, as the code has it. The lines are read in order, starting in the group \<open>default\<close>.
  A line that starts with an opening bracket makes the stripped line without its first and
  last character the current group, which for a line \<open>[group]\<close> is the name between the
  brackets. Any other line that is not blank is appended, stripped, to the current group;
  a blank line is skipped. The lines \<open>a\<close>, \<open>[extra1]\<close>, \<open>b\<close> give \<open>default = [a]\<close> and
  \<open>extra1 = [b]\<close>; a completed run over them writes the line separator followed by \<open>a\<close>
  as \<open>install_requires\<close> and \<open>b\<close> as \<open>extra1\<close> in the section \<open>options.extras_require\<close>,
  which exists.
\<close>

theorem requires_file_parsing:
  "(startswith req ''[''
      \<longrightarrow> parse_requires sect r (req # reqs) = parse_requires (slice_1_m1 (py_strip req)) r reqs)
   \<and> slice_1_m1 (py_strip (''['' @ g @ '']\<newline>'')) = g
   \<and> (\<not> startswith req ''['' \<and> py_strip req \<noteq> []
      \<longrightarrow> parse_requires sect r (req # reqs)
          = parse_requires sect (dd_append sect (py_strip req) r) reqs)
   \<and> (\<not> startswith req ''['' \<and> py_strip req = []
      \<longrightarrow> parse_requires sect r (req # reqs) = parse_requires sect r reqs)
   \<and> requires_of env = dd_touch ''default'' (parse_requires ''default'' [] (requires_txt env))
   \<and> parse_requires ''default'' [] [''a\<newline>'', ''[extra1]\<newline>'', ''b\<newline>'']
       = [(''default'', [''a'']), (''extra1'', [''b''])]
   \<and> (main env = Inr c \<and> egg_info_glob env = [d]
       \<and> path_exists env (os_path_join d ''requires.txt'')
       \<and> requires_txt env = [''a\<newline>'', ''[extra1]\<newline>'', ''b\<newline>'']
      \<longrightarrow> conf_get c ''options'' ''install_requires'' = Some (linesep env @ ''a'')
          \<and> conf_get c ''options.extras_require'' ''extra1'' = Some ''b''
          \<and> has_section c ''options.extras_require'')"
  using bracketed_name [of g] example_parse example_written [of env c d]
  by (simp add: requires_of_def)

theorem requires_file_parsing_witness:
  "startswith ''[extra1]\<newline>'' ''[''
   \<and> parse_requires ''default'' [(''default'', [''a''])] [''[extra1]\<newline>'', ''b\<newline>'']
       = parse_requires ''extra1'' [(''default'', [''a''])] [''b\<newline>'']
   \<and> \<not> startswith ''b\<newline>'' ''['' \<and> py_strip ''b\<newline>'' \<noteq> []
   \<and> parse_requires ''extra1'' [(''default'', [''a''])] [''b\<newline>'']
       = parse_requires ''extra1'' [(''default'', [''a'']), (''extra1'', [''b''])] []
   \<and> \<not> startswith ''\<newline>'' ''['' \<and> py_strip ''\<newline>'' = []
   \<and> parse_requires ''extra1'' [(''default'', [''a''])] [''\<newline>'', ''b\<newline>'']
       = parse_requires ''extra1'' [(''default'', [''a''])] [''b\<newline>'']
   \<and> main env_reqs =
       Inr [(''metadata'', [(''name'', ''foo''), (''version'', ''1.0'')]),
            (''options'', [(''zip_safe'', ''True''), (''packages'', ''find:''),
               (''include_package_data'', ''True''), (''install_requires'', ''\<newline>a'')]),
            (''options.extras_require'', [(''extra1'', ''b'')])]
   \<and> egg_info_glob env_reqs = [''foo.egg-info'']
   \<and> path_exists env_reqs (os_path_join ''foo.egg-info'' ''requires.txt'')
   \<and> requires_txt env_reqs = [''a\<newline>'', ''[extra1]\<newline>'', ''b\<newline>'']
   \<and> conf_get [(''metadata'', [(''name'', ''foo''), (''version'', ''1.0'')]),
            (''options'', [(''zip_safe'', ''True''), (''packages'', ''find:''),
               (''include_package_data'', ''True''), (''install_requires'', ''\<newline>a'')]),
            (''options.extras_require'', [(''extra1'', ''b'')])]
         ''options'' ''install_requires'' = Some (linesep env_reqs @ ''a'')"
proof -
  let ?doc = "[(''metadata'', [(''name'', ''foo''), (''version'', ''1.0'')]),
            (''options'', [(''zip_safe'', ''True''), (''packages'', ''find:''),
               (''include_package_data'', ''True''), (''install_requires'', ''\<newline>a'')]),
            (''options.extras_require'', [(''extra1'', ''b'')])]"
  have m: "main env_reqs = Inr ?doc"
    by code_simp
  have e: "egg_info_glob env_reqs = [''foo.egg-info'']"
    "path_exists env_reqs (os_path_join ''foo.egg-info'' ''requires.txt'')"
    "requires_txt env_reqs = [''a\<newline>'', ''[extra1]\<newline>'', ''b\<newline>'']"
    by (simp_all add: env_reqs_def env_foo_def os_path_join_def startswith_def)
  have s: "startswith ''[extra1]\<newline>'' ''[''" "\<not> startswith ''b\<newline>'' ''[''"
    "py_strip ''b\<newline>'' \<noteq> []" "\<not> startswith ''\<newline>'' ''[''" "py_strip ''\<newline>'' = []"
    by (simp_all add: startswith_def py_strip_def py_isspace_def)
  from m e s
    requires_file_parsing [of "''[extra1]\<newline>''" "''default''" "[(''default'', [''a''])]"
      "[''b\<newline>'']" "''extra1''" env_reqs ?doc "''foo.egg-info''"]
    requires_file_parsing [of "''b\<newline>''" "''extra1''" "[(''default'', [''a''])]"
      "[]" "''extra1''" env_reqs ?doc "''foo.egg-info''"]
    requires_file_parsing [of "''\<newline>''" "''extra1''" "[(''default'', [''a''])]"
      "[''b\<newline>'']" "''extra1''" env_reqs ?doc "''foo.egg-info''"]
  show ?thesis
    by (simp add: py_strip_def py_isspace_def slice_1_m1_def)
qed

text \<open>
  The claim as written gives \<open>a\<close> as the value of \<open>install_requires\<close>; the run writes a
  line separator before it.
\<close>

theorem install_requires_value_counterexample:
  "requires_txt env_reqs = [''a\<newline>'', ''[extra1]\<newline>'', ''b\<newline>'']
   \<and> main env_reqs =
       Inr [(''metadata'', [(''name'', ''foo''), (''version'', ''1.0'')]),
            (''options'', [(''zip_safe'', ''True''), (''packages'', ''find:''),
               (''include_package_data'', ''True''), (''install_requires'', ''\<newline>a'')]),
            (''options.extras_require'', [(''extra1'', ''b'')])]
   \<and> conf_get [(''metadata'', [(''name'', ''foo''), (''version'', ''1.0'')]),
            (''options'', [(''zip_safe'', ''True''), (''packages'', ''find:''),
               (''include_package_data'', ''True''), (''install_requires'', ''\<newline>a'')]),
            (''options.extras_require'', [(''extra1'', ''b'')])]
         ''options'' ''install_requires'' \<noteq> Some ''a''"
proof -
  have "main env_reqs =
       Inr [(''metadata'', [(''name'', ''foo''), (''version'', ''1.0'')]),
            (''options'', [(''zip_safe'', ''True''), (''packages'', ''find:''),
               (''include_package_data'', ''True''), (''install_requires'', ''\<newline>a'')]),
            (''options.extras_require'', [(''extra1'', ''b'')])]"
    by code_simp
  then show ?thesis
    by (simp add: env_reqs_def env_foo_def conf_get_def)
qed

section \<open>The extras in the written document\<close>

lemma extras_sets_keys: "map (\<lambda>x. py_lower (fst x)) (extras_sets r gs)
   = map py_lower (filter (\<lambda>g. g \<noteq> ''default'') gs)"
  by (simp add: extras_sets_def comp_def)

lemma extras_sets_lowered:
  "map (\<lambda>(k, v). (py_lower k, v)) (extras_sets r gs)
     = map (\<lambda>g. (py_lower g, py_join ''; '' (dd_get r g))) (filter (\<lambda>g. g \<noteq> ''default'') gs)"
  by (simp add: extras_sets_def comp_def)

lemma extras_section_merged:
  assumes "path_exists env (os_path_join d ''requires.txt'')" and "length (requires_of env) > 1"
  shows "section_items (merged env d) ''options.extras_require''
     = apply_sets (extras_sets (requires_of env) (sort (map fst (requires_of env))))
         (section_items (setup_cfg env) ''options.extras_require'')"
  using assms by (simp add: section_items_merged section_sets_def)

lemma extras_section_fresh:
  assumes "path_exists env (os_path_join d ''requires.txt'')" and "length (requires_of env) > 1"
    and "distinct (map py_lower (filter (\<lambda>g. g \<noteq> ''default'') (sort (map fst (requires_of env)))))"
    and "py_lower ` set (filter (\<lambda>g. g \<noteq> ''default'') (sort (map fst (requires_of env))))
         \<inter> fst ` set (section_items (setup_cfg env) ''options.extras_require'') = {}"
  shows "section_items (merged env d) ''options.extras_require''
     = section_items (setup_cfg env) ''options.extras_require''
       @ map (\<lambda>g. (py_lower g, py_join ''; '' (dd_get (requires_of env) g)))
           (filter (\<lambda>g. g \<noteq> ''default'') (sort (map fst (requires_of env))))"
proof -
  let ?xs = "extras_sets (requires_of env) (sort (map fst (requires_of env)))"
  let ?its = "section_items (setup_cfg env) ''options.extras_require''"
  have d: "distinct (map (\<lambda>x. py_lower (fst x)) ?xs)"
    using assms(3) by (simp only: extras_sets_keys)
  have "(\<lambda>x. py_lower (fst x)) ` set ?xs = set (map (\<lambda>x. py_lower (fst x)) ?xs)"
    by simp
  also have "\<dots> = py_lower ` set (filter (\<lambda>g. g \<noteq> ''default'') (sort (map fst (requires_of env))))"
    by (simp only: extras_sets_keys set_map)
  finally have i: "(\<lambda>x. py_lower (fst x)) ` set ?xs \<inter> fst ` set ?its = {}"
    using assms(4) by simp
  show ?thesis
    unfolding extras_section_merged [OF assms(1,2)] apply_sets_fresh [OF d i]
    by (simp only: extras_sets_lowered)
qed

lemma extras_example_order:
  assumes "path_exists env (os_path_join d ''requires.txt'')"
    and "sort (map fst (requires_of env)) = [''alpha'', ''default'', ''zeta'']"
    and "section_items (setup_cfg env) ''options.extras_require'' = []"
  shows "map fst (section_items (merged env d) ''options.extras_require'') = [''alpha'', ''zeta'']"
proof -
  have "length (sort (map fst (requires_of env))) = 3"
    unfolding assms(2) by simp
  then have l: "length (requires_of env) > 1" by simp
  have lo: "py_lower ''alpha'' = ''alpha''" "py_lower ''zeta'' = ''zeta''"
    by (simp_all add: py_lower_def py_lower_char_def)
  have "section_items (merged env d) ''options.extras_require''
     = section_items (setup_cfg env) ''options.extras_require''
       @ map (\<lambda>g. (py_lower g, py_join ''; '' (dd_get (requires_of env) g)))
           (filter (\<lambda>g. g \<noteq> ''default'') (sort (map fst (requires_of env))))"
    by (rule extras_section_fresh [OF assms(1) l]) (simp_all add: assms(2,3) lo)
  then show ?thesis
    by (simp add: assms(2,3) lo)
qed

text \<open>
  C3, as the code has it. When \<open>requires.txt\<close> exists, a completed run has set
  \<open>install_requires\<close> in \<open>options\<close> to the line separator followed by the \<open>default\<close>
  group joined by the separator, which is the separator alone for an empty group. When
  there is more than one group, the section \<open>options.extras_require\<close> exists and holds what
  it held before with, for each group other than \<open>default\<close> in sorted order of the names,
  the lower-cased name set to the group's requirements joined by \<open>'; '\<close>: a key that was
  already there keeps its place, and the new keys follow in that order. With the groups
  \<open>default\<close>, \<open>zeta\<close>, \<open>alpha\<close> and no such option before, \<open>alpha\<close> comes before \<open>zeta\<close>.
\<close>

theorem requirements_merge:
  assumes "main env = Inr c" and "egg_info_glob env = [d]"
    and "path_exists env (os_path_join d ''requires.txt'')"
  shows "conf_get c ''options'' ''install_requires''
       = Some (linesep env @ py_join (linesep env) (dd_get (requires_of env) ''default''))
    \<and> (dd_get (requires_of env) ''default'' = []
        \<longrightarrow> conf_get c ''options'' ''install_requires'' = Some (linesep env))
    \<and> (length (requires_of env) > 1
        \<longrightarrow> has_section c ''options.extras_require''
          \<and> section_items c ''options.extras_require''
              = apply_sets (extras_sets (requires_of env) (sort (map fst (requires_of env))))
                  (section_items (setup_cfg env) ''options.extras_require''))
    \<and> (length (requires_of env) > 1
        \<and> distinct (map py_lower (filter (\<lambda>g. g \<noteq> ''default'') (sort (map fst (requires_of env)))))
        \<and> py_lower ` set (filter (\<lambda>g. g \<noteq> ''default'') (sort (map fst (requires_of env))))
            \<inter> fst ` set (section_items (setup_cfg env) ''options.extras_require'') = {}
        \<longrightarrow> section_items c ''options.extras_require''
            = section_items (setup_cfg env) ''options.extras_require''
              @ map (\<lambda>g. (py_lower g, py_join ''; '' (dd_get (requires_of env) g)))
                  (filter (\<lambda>g. g \<noteq> ''default'') (sort (map fst (requires_of env)))))
    \<and> (sort (map fst (requires_of env)) = [''alpha'', ''default'', ''zeta'']
        \<and> section_items (setup_cfg env) ''options.extras_require'' = []
        \<longrightarrow> map fst (section_items c ''options.extras_require'') = [''alpha'', ''zeta''])"
proof -
  have c: "c = merged env d" using assms(1,2) by (rule main_Inr_dir)
  have i: "conf_get c ''options'' ''install_requires''
       = Some (linesep env @ py_join (linesep env) (dd_get (requires_of env) ''default''))"
    unfolding c by (rule install_requires_merged [OF assms(3)])
  then have e: "dd_get (requires_of env) ''default'' = []
        \<longrightarrow> conf_get c ''options'' ''install_requires'' = Some (linesep env)"
    by simp
  have h: "length (requires_of env) > 1 \<longrightarrow> has_section c ''options.extras_require''"
    unfolding c using assms(3) by (simp add: has_section_merged)
  from i e h extras_section_merged [OF assms(3)] extras_section_fresh [OF assms(3)]
    extras_example_order [OF assms(3)]
  show ?thesis unfolding c by blast
qed

theorem requirements_merge_witness:
  "main env_extras =
     Inr [(''metadata'', [(''name'', ''foo''), (''version'', ''1.0'')]),
          (''options'', [(''zip_safe'', ''True''), (''packages'', ''find:''),
             (''include_package_data'', ''True''), (''install_requires'', ''\<newline>'')]),
          (''options.extras_require'', [(''alpha'', ''b''), (''zeta'', ''z1; z2'')])]
   \<and> egg_info_glob env_extras = [''foo.egg-info'']
   \<and> path_exists env_extras (os_path_join ''foo.egg-info'' ''requires.txt'')
   \<and> requires_of env_extras = [(''zeta'', [''z1'', ''z2'']), (''alpha'', [''b'']), (''default'', [])]
   \<and> dd_get (requires_of env_extras) ''default'' = []
   \<and> length (requires_of env_extras) > 1
   \<and> sort (map fst (requires_of env_extras)) = [''alpha'', ''default'', ''zeta'']
   \<and> section_items (setup_cfg env_extras) ''options.extras_require'' = []
   \<and> conf_get [(''metadata'', [(''name'', ''foo''), (''version'', ''1.0'')]),
          (''options'', [(''zip_safe'', ''True''), (''packages'', ''find:''),
             (''include_package_data'', ''True''), (''install_requires'', ''\<newline>'')]),
          (''options.extras_require'', [(''alpha'', ''b''), (''zeta'', ''z1; z2'')])]
        ''options'' ''install_requires'' = Some (linesep env_extras)
   \<and> map fst (section_items [(''metadata'', [(''name'', ''foo''), (''version'', ''1.0'')]),
          (''options'', [(''zip_safe'', ''True''), (''packages'', ''find:''),
             (''include_package_data'', ''True''), (''install_requires'', ''\<newline>'')]),
          (''options.extras_require'', [(''alpha'', ''b''), (''zeta'', ''z1; z2'')])]
        ''options.extras_require'') = [''alpha'', ''zeta'']"
proof -
  let ?doc = "[(''metadata'', [(''name'', ''foo''), (''version'', ''1.0'')]),
          (''options'', [(''zip_safe'', ''True''), (''packages'', ''find:''),
             (''include_package_data'', ''True''), (''install_requires'', ''\<newline>'')]),
          (''options.extras_require'', [(''alpha'', ''b''), (''zeta'', ''z1; z2'')])]"
  have m: "main env_extras = Inr ?doc"
    by code_simp
  have g: "egg_info_glob env_extras = [''foo.egg-info'']"
    by (simp add: env_extras_def env_foo_def)
  have p: "path_exists env_extras (os_path_join ''foo.egg-info'' ''requires.txt'')"
    by (simp add: env_extras_def env_foo_def os_path_join_def startswith_def)
  have r: "requires_of env_extras = [(''zeta'', [''z1'', ''z2'']), (''alpha'', [''b'']), (''default'', [])]"
    by code_simp
  have s: "section_items (setup_cfg env_extras) ''options.extras_require'' = []"
    by (simp add: env_extras_def env_foo_def section_items_def)
  have d: "dd_get (requires_of env_extras) ''default'' = []"
    unfolding r by (simp add: dd_get_def)
  have l: "length (requires_of env_extras) > 1"
    unfolding r by simp
  have so: "sort (map fst (requires_of env_extras)) = [''alpha'', ''default'', ''zeta'']"
    unfolding r by simp
  from requirements_merge [OF m g p] d l so s
  have "conf_get ?doc ''options'' ''install_requires'' = Some (linesep env_extras)"
    and "map fst (section_items ?doc ''options.extras_require'') = [''alpha'', ''zeta'']"
    by blast+
  with m g p r d l so s show ?thesis
    by blast
qed

text \<open>
  The claim as written fails where the document already has the key \<open>zeta\<close>: the key keeps
  its place and \<open>alpha\<close> is written after it. The value of \<open>install_requires\<close> also starts
  with a line separator.
\<close>

theorem extras_order_counterexample:
  "section_items (setup_cfg env_zeta_first) ''options.extras_require'' = [(''zeta'', ''old'')]
   \<and> requires_of env_zeta_first = [(''default'', [''a'']), (''zeta'', [''z1'']), (''alpha'', [''b''])]
   \<and> main env_zeta_first =
       Inr [(''metadata'', [(''name'', ''foo''), (''version'', ''1.0'')]),
            (''options'', [(''zip_safe'', ''True''), (''packages'', ''find:''),
               (''include_package_data'', ''True''), (''install_requires'', ''\<newline>a'')]),
            (''options.extras_require'', [(''zeta'', ''z1''), (''alpha'', ''b'')])]"
proof -
  have "section_items (setup_cfg env_zeta_first) ''options.extras_require'' = [(''zeta'', ''old'')]"
    by (simp add: env_zeta_first_def env_foo_def section_items_def)
  moreover have "requires_of env_zeta_first
      = [(''default'', [''a'']), (''zeta'', [''z1'']), (''alpha'', [''b''])]"
    by code_simp
  moreover have "main env_zeta_first =
       Inr [(''metadata'', [(''name'', ''foo''), (''version'', ''1.0'')]),
            (''options'', [(''zip_safe'', ''True''), (''packages'', ''find:''),
               (''include_package_data'', ''True''), (''install_requires'', ''\<newline>a'')]),
            (''options.extras_require'', [(''zeta'', ''z1''), (''alpha'', ''b'')])]"
    by code_simp
  ultimately show ?thesis by blast
qed

section \<open>The entry points in the written document\<close>








section \<open>What a run leaves as it was\<close>









section \<open>When a run completes\<close>








section \<open>A second run\<close>







lemma section_sets_cfg [simp]:
  "section_sets (env\<lparr>setup_cfg := c\<rparr>) d s = section_sets env d s"
  by (simp add: section_sets_def metadata_sets_def options_sets_def install_requires_sets_def
      requires_of_def os_env.truncate_def)
















end
